theory Spec2Isabelle
  imports Complex_Main "HOL-Library.Product_Lexorder"
begin

section \<open>ECMAScript time values and local calendar fields\<close>

text \<open>
  \<^verbatim>\<open>calculateAge\<close> in \<^verbatim>\<open>backend/src/server.ts\<close> reads \<^verbatim>\<open>getFullYear()\<close>,
  \<^verbatim>\<open>getMonth()\<close> and \<^verbatim>\<open>getDate()\<close> of two \<^verbatim>\<open>Date\<close> objects. A valid
  \<^verbatim>\<open>Date\<close> is its time value, an integer number of milliseconds since the epoch. The
  three getters are the language's \<^verbatim>\<open>YearFromTime\<close>, \<^verbatim>\<open>MonthFromTime\<close> and
  \<^verbatim>\<open>DateFromTime\<close> of the local time \<^verbatim>\<open>t + LocalTZA(t, true)\<close>. The functions
  below follow the language definition (ECMA-262, "Time Values and Time Range", "Day Number
  and Time within Day", "Year Number", "Month Number", "Date Number").
\<close>

definition msPerDay :: int where
  "msPerDay = 86400000"

definition Day :: "int \<Rightarrow> int" where
  "Day t = t div msPerDay"

definition DaysInYear :: "int \<Rightarrow> int" where
  "DaysInYear y =
     (if y mod 4 \<noteq> 0 then 365
      else if y mod 100 \<noteq> 0 then 366
      else if y mod 400 \<noteq> 0 then 365
      else 366)"

definition DayFromYear :: "int \<Rightarrow> int" where
  "DayFromYear y =
     365 * (y - 1970) + (y - 1969) div 4 - (y - 1901) div 100 + (y - 1601) div 400"

text \<open>
  \<^verbatim>\<open>YearFromTime(t)\<close> is "the largest integer y such that TimeFromYear(y) <= t". It is
  computed here by a bounded search: a year has 365 or 366 days, so the year of day \<open>d\<close>
  lies between \<open>1970 + d div 366\<close> and \<open>1970 + d div 365\<close> (in this order from the
  epoch on, in the other order before it). The search starts at the lower estimate and
  moves up while the next year starts on or before \<open>d\<close>.
\<close>

function yearUp :: "int \<Rightarrow> int \<Rightarrow> int \<Rightarrow> int" where
  "yearUp d hi y = (if y < hi \<and> DayFromYear (y + 1) \<le> d then yearUp d hi (y + 1) else y)"
  by pat_completeness auto
termination
  by (relation "measure (\<lambda>(d, hi, y). nat (hi - y))") auto

declare yearUp.simps [simp del]

definition YearFromDay :: "int \<Rightarrow> int" where
  "YearFromDay d =
     (if 0 \<le> d then yearUp d (1970 + d div 365 + 1) (1970 + d div 366)
      else yearUp d (1970 + d div 366 + 1) (1970 + d div 365))"

definition YearFromTime :: "int \<Rightarrow> int" where
  "YearFromTime t = YearFromDay (Day t)"

definition DayWithinYear :: "int \<Rightarrow> int" where
  "DayWithinYear t = Day t - DayFromYear (YearFromTime t)"

definition InLeapYear :: "int \<Rightarrow> int" where
  "InLeapYear t = (if DaysInYear (YearFromTime t) = 366 then 1 else 0)"

text \<open>The month and date tables of the language definition, on the day within the year.\<close>

definition monthOfDay :: "int \<Rightarrow> int \<Rightarrow> int" where
  "monthOfDay leap dwy =
     (if dwy < 31 then 0
      else if dwy < 59 + leap then 1
      else if dwy < 90 + leap then 2
      else if dwy < 120 + leap then 3
      else if dwy < 151 + leap then 4
      else if dwy < 181 + leap then 5
      else if dwy < 212 + leap then 6
      else if dwy < 243 + leap then 7
      else if dwy < 273 + leap then 8
      else if dwy < 304 + leap then 9
      else if dwy < 334 + leap then 10
      else 11)"

definition dateOfDay :: "int \<Rightarrow> int \<Rightarrow> int" where
  "dateOfDay leap dwy =
     (let m = monthOfDay leap dwy in
      if m = 0 then dwy + 1
      else if m = 1 then dwy - 30
      else if m = 2 then dwy - 58 - leap
      else if m = 3 then dwy - 89 - leap
      else if m = 4 then dwy - 119 - leap
      else if m = 5 then dwy - 150 - leap
      else if m = 6 then dwy - 180 - leap
      else if m = 7 then dwy - 211 - leap
      else if m = 8 then dwy - 242 - leap
      else if m = 9 then dwy - 272 - leap
      else if m = 10 then dwy - 303 - leap
      else dwy - 333 - leap)"

definition MonthFromTime :: "int \<Rightarrow> int" where
  "MonthFromTime t = monthOfDay (InLeapYear t) (DayWithinYear t)"

definition DateFromTime :: "int \<Rightarrow> int" where
  "DateFromTime t = dateOfDay (InLeapYear t) (DayWithinYear t)"

text \<open>
  The host's time zone is not part of the repository: \<open>tza t\<close> stands for
  \<^verbatim>\<open>LocalTZA(t, true)\<close>, the offset of local time from UTC at the instant \<open>t\<close>,
  in milliseconds.
\<close>

definition LocalTime :: "(int \<Rightarrow> int) \<Rightarrow> int \<Rightarrow> int" where
  "LocalTime tza t = t + tza t"

definition getFullYear :: "(int \<Rightarrow> int) \<Rightarrow> int \<Rightarrow> int" where
  "getFullYear tza t = YearFromTime (LocalTime tza t)"

definition getMonth :: "(int \<Rightarrow> int) \<Rightarrow> int \<Rightarrow> int" where
  "getMonth tza t = MonthFromTime (LocalTime tza t)"

definition getDate :: "(int \<Rightarrow> int) \<Rightarrow> int \<Rightarrow> int" where
  "getDate tza t = DateFromTime (LocalTime tza t)"

text \<open>
  The other direction, for dates given by year, month (0 to 11) and day of the month: the
  day number of the language's \<^verbatim>\<open>MakeDay\<close>, and the time value of a date-only ISO
  string (\<^verbatim>\<open>YYYY-MM-DD\<close>), which the language reads as midnight UTC of that date.
\<close>

definition leapOf :: "int \<Rightarrow> int" where
  "leapOf y = (if DaysInYear y = 366 then 1 else 0)"

definition daysBeforeMonth :: "int \<Rightarrow> int \<Rightarrow> int" where
  "daysBeforeMonth leap m =
     (if m = 0 then 0
      else if m = 1 then 31
      else if m = 2 then 59 + leap
      else if m = 3 then 90 + leap
      else if m = 4 then 120 + leap
      else if m = 5 then 151 + leap
      else if m = 6 then 181 + leap
      else if m = 7 then 212 + leap
      else if m = 8 then 243 + leap
      else if m = 9 then 273 + leap
      else if m = 10 then 304 + leap
      else 334 + leap)"



definition MakeDay :: "int \<Rightarrow> int \<Rightarrow> int \<Rightarrow> int" where
  "MakeDay y m d = DayFromYear y + daysBeforeMonth (leapOf y) m + d - 1"

definition utcMidnight :: "int \<Rightarrow> int \<Rightarrow> int \<Rightarrow> int" where
  "utcMidnight y m d = MakeDay y m d * msPerDay"

section \<open>The age helper of the server\<close>

text \<open>
  \<^verbatim>\<open>
  function calculateAge(dateOfBirth: string): number {
    const today = new Date();
    const birthDate = new Date(dateOfBirth);
    let age = today.getFullYear() - birthDate.getFullYear();
    const monthDiff = today.getMonth() - birthDate.getMonth();
    if (monthDiff < 0 || (monthDiff === 0 && today.getDate() < birthDate.getDate())) {
      age--;
    }
    return age;
  }
  \<close>
  The clock read by \<^verbatim>\<open>new Date()\<close> is the argument \<open>today\<close>. The handler passes the
  \<^verbatim>\<open>Date\<close> that the validator produced, and \<^verbatim>\<open>new Date(d)\<close> of a \<^verbatim>\<open>Date\<close> has
  the same time value, so \<open>birthDate\<close> is that time value. The function has no error
  path: it neither throws nor checks the order of the two dates.
\<close>

definition calculateAge :: "(int \<Rightarrow> int) \<Rightarrow> int \<Rightarrow> int \<Rightarrow> int" where
  "calculateAge tza today birthDate =
     (let age = getFullYear tza today - getFullYear tza birthDate;
          monthDiff = getMonth tza today - getMonth tza birthDate
      in if monthDiff < 0 \<or> (monthDiff = 0 \<and> getDate tza today < getDate tza birthDate)
         then age - 1
         else age)"

section \<open>Request bodies, strings and the validation schema\<close>

text \<open>
  \<^verbatim>\<open>express.json()\<close> hands the handler the parsed body, an object (the empty object
  when the request has none). A field of it is absent (\<^verbatim>\<open>undefined\<close>), \<^verbatim>\<open>null\<close>, a boolean,
  a number, a string, or an array or object (\<open>JObject\<close>). A \<open>char\<close> stands for a UTF-16
  code unit below 256. Keys of the body other than the three of the schema are listed in
  \<open>unknownKeys\<close>, in the order of \<^verbatim>\<open>Object.keys\<close>.
\<close>

datatype jsval = JUndefined | JNull | JBool bool | JNum int | JStr string | JObject

record body =
  firstName :: jsval
  lastName :: jsval
  dateOfBirth :: jsval
  unknownKeys :: "string list"

text \<open>
  The white space of the language (\<^verbatim>\<open>WhiteSpace\<close> and \<^verbatim>\<open>LineTerminator\<close>) below code
  unit 256: TAB, LF, VT, FF, CR, SP and NBSP. It is what \<^verbatim>\<open>\s\<close> matches in a regular
  expression and what \<^verbatim>\<open>String.prototype.trim\<close> strips.
\<close>

definition isWhiteSpace :: "char \<Rightarrow> bool" where
  "isWhiteSpace c = (of_char c \<in> {9, 10, 11, 12, 13, 32, 160 :: nat})"

definition trim :: "string \<Rightarrow> string" where
  "trim s = rev (dropWhile isWhiteSpace (rev (dropWhile isWhiteSpace s)))"

text \<open>The character class \<^verbatim>\<open>[a-zA-Z\s'-]\<close> and the pattern \<^verbatim>\<open>/^[a-zA-Z\s'-]+$/\<close>.\<close>

definition nameChar :: "char \<Rightarrow> bool" where
  "nameChar c =
     (let n = (of_char c :: nat)
      in (97 \<le> n \<and> n \<le> 122) \<or> (65 \<le> n \<and> n \<le> 90) \<or> isWhiteSpace c \<or>
         c = CHR 0x27 \<or> c = CHR ''-'')"

definition namePattern :: "string \<Rightarrow> bool" where
  "namePattern s = (s \<noteq> [] \<and> list_all nameChar s)"

text \<open>
  Joi's preferences; \<^verbatim>\<open>userSchema.validate(req.body)\<close> passes none, so the library's
  defaults apply, of which \<^verbatim>\<open>abortEarly: true\<close> decides how many errors are reported.
\<close>

record prefs =
  abortEarly :: bool

definition defaults :: prefs where
  "defaults = \<lparr>abortEarly = True\<rparr>"

text \<open>Joi renders the key of a failing field in double quotes in its own messages.\<close>

definition label :: "string \<Rightarrow> string" where
  "label key = CHR 0x22 # key @ [CHR 0x22]"

text \<open>
  \<^verbatim>\<open>
  Joi.string().min(1).max(50).pattern(/^[a-zA-Z\s'-]+$/).required()
    .messages({ 'string.pattern.base': ..., 'string.min': ..., 'string.max': ... })
  \<close>
\<close>

record nameMessages =
  patternMessage :: string
  minMessage :: string
  maxMessage :: string

definition firstNameMessages :: nameMessages where
  "firstNameMessages =
     \<lparr>patternMessage = ''First name must contain only letters, spaces, hyphens, and apostrophes'',
      minMessage = ''First name must be at least 1 character long'',
      maxMessage = ''First name cannot exceed 50 characters''\<rparr>"

definition lastNameMessages :: nameMessages where
  "lastNameMessages =
     \<lparr>patternMessage = ''Last name must contain only letters, spaces, hyphens, and apostrophes'',
      minMessage = ''Last name must be at least 1 character long'',
      maxMessage = ''Last name cannot exceed 50 characters''\<rparr>"

text \<open>The rules of the chain, in the order of the chain, each with its message.\<close>

definition ruleErrors :: "nameMessages \<Rightarrow> string \<Rightarrow> string list" where
  "ruleErrors m s =
     (if length s < 1 then [minMessage m] else []) @
     (if 50 < length s then [maxMessage m] else []) @
     (if namePattern s then [] else [patternMessage m])"

text \<open>
  A string schema: \<^verbatim>\<open>undefined\<close> fails \<^verbatim>\<open>any.required\<close>; a value that is not a string
  fails \<^verbatim>\<open>string.base\<close> and the empty string fails \<^verbatim>\<open>string.empty\<close> (both are errors
  of the base type, which always end the validation of the value); then the rules run, and
  the first failing rule ends the run when \<open>abortEarly\<close> is set. The schema has no
  \<^verbatim>\<open>.trim()\<close>: the value is neither trimmed nor otherwise converted.
\<close>

definition validateString :: "prefs \<Rightarrow> string \<Rightarrow> nameMessages \<Rightarrow> jsval \<Rightarrow> string list" where
  "validateString p key m v =
     (case v of
        JUndefined \<Rightarrow> [label key @ '' is required'']
      | JStr s \<Rightarrow>
          if s = [] then [label key @ '' is not allowed to be empty'']
          else if abortEarly p then take 1 (ruleErrors m s)
          else ruleErrors m s
      | _ \<Rightarrow> [label key @ '' must be a string''])"

text \<open>
  \<^verbatim>\<open>
  Joi.date().iso().max('now').required().messages({ 'date.max': ... })
  \<close>
  Joi coerces a number or a string with its ISO 8601 parser (a regular expression and
  \<^verbatim>\<open>new Date\<close>), which is not part of the repository: \<open>parse v\<close> is the time value of the
  valid \<^verbatim>\<open>Date\<close> it returns for \<open>v\<close>, and \<open>None\<close> when it returns none. The rule
  \<^verbatim>\<open>max('now')\<close> holds when the time value is at most \<^verbatim>\<open>Date.now()\<close>, here \<open>now\<close>.
  The result is the list of errors and the converted value.
\<close>

definition coerceDate :: "(jsval \<Rightarrow> int option) \<Rightarrow> jsval \<Rightarrow> int option" where
  "coerceDate parse v =
     (case v of JNum n \<Rightarrow> parse v | JStr s \<Rightarrow> parse v | _ \<Rightarrow> None)"

definition validateDate :: "(jsval \<Rightarrow> int option) \<Rightarrow> int \<Rightarrow> jsval \<Rightarrow> string list \<times> int option" where
  "validateDate parse now v =
     (case v of
        JUndefined \<Rightarrow> ([label ''dateOfBirth'' @ '' is required''], None)
      | _ \<Rightarrow>
         (case coerceDate parse v of
            None \<Rightarrow>
              (case v of
                 JStr s \<Rightarrow> ([label ''dateOfBirth'' @ '' must be in ISO 8601 date format''], None)
               | _ \<Rightarrow> ([label ''dateOfBirth'' @ '' must be a valid date''], None))
          | Some t \<Rightarrow>
              if t \<le> now then ([], Some t)
              else ([''Date of birth cannot be in the future''], Some t)))"

text \<open>
  The object schema validates its keys in the order of the schema and then rejects
  unknown keys. With \<open>abortEarly\<close> it returns at the first key that has errors, with
  that key's errors; without it, it collects the errors of all keys.
\<close>

fun collect :: "prefs \<Rightarrow> string list list \<Rightarrow> string list" where
  "collect p [] = []"
| "collect p (errs # rest) =
     (if errs \<noteq> [] \<and> abortEarly p then errs else errs @ collect p rest)"

section \<open>Errors, the store and the host\<close>

text \<open>
  A JavaScript error as the error middleware reads it. An error of the PostgreSQL server
  has the name \<^verbatim>\<open>error\<close> and the server's five-character code; a failure of the
  connection is a plain \<^verbatim>\<open>Error\<close> with a message.
\<close>

record jsError =
  name :: string
  message :: string
  code :: "string option"
  statusCode :: "nat option"

definition pgError :: "string \<Rightarrow> string \<Rightarrow> jsError" where
  "pgError c m = \<lparr>name = ''error'', message = m, code = Some c, statusCode = None\<rparr>"

text \<open>
  What the host gives the handlers: Joi's ISO parser, the clock as the validator reads it
  (\<^verbatim>\<open>Date.now()\<close> in \<^verbatim>\<open>max('now')\<close>) and as \<^verbatim>\<open>calculateAge\<close> reads it afterwards
  (\<^verbatim>\<open>new Date()\<close>), the time zone, whether the query is rejected before it reaches the
  table (connection refused, timeout, ...), and the clock of the database.
\<close>

record env =
  isoDate :: "jsval \<Rightarrow> int option"
  validatorNow :: int
  today :: int
  localTZA :: "int \<Rightarrow> int"
  queryFault :: "jsError option"
  dbNow :: int

text \<open>
  \<^verbatim>\<open>
  CREATE TABLE IF NOT EXISTS users (
      id SERIAL PRIMARY KEY,
      first_name VARCHAR(50) NOT NULL,
      last_name VARCHAR(50) NOT NULL,
      date_of_birth DATE NOT NULL,
      age INTEGER NOT NULL CHECK (age >= 0 AND age <= 150),
      is_eligible BOOLEAN NOT NULL,
      created_at TIMESTAMP WITH TIME ZONE DEFAULT CURRENT_TIMESTAMP, ...
  \<close>
  (\<^verbatim>\<open>database/init.sql\<close>). The table is the list of its rows in insertion order, with the
  sequence behind \<^verbatim>\<open>id\<close>.
\<close>

record user_row =
  id' :: int
  first_name :: string
  last_name :: string
  date_of_birth :: int
  age :: int
  is_eligible :: bool
  created_at :: int

record database =
  users :: "user_row list"
  users_id_seq :: int

text \<open>
  \<^verbatim>\<open>
  INSERT INTO users (first_name, last_name, date_of_birth, age, is_eligible, created_at)
  VALUES ($1, $2, $3, $4, $5, NOW())
  RETURNING id, created_at
  \<close>
  A rejected query leaves the table as it is. The driver sends the \<^verbatim>\<open>Date\<close> of
  \<^verbatim>\<open>$3\<close> as its host-local calendar date and time, and the server reads the parameter
  as a \<^verbatim>\<open>DATE\<close>, whose range starts at 24 November of the year -4713 (4714 BC; the end
  of the range is beyond every \<^verbatim>\<open>Date\<close>): an earlier date is rejected with the code
  \<^verbatim>\<open>22008\<close> when the parameter is read, before a row is built, so no value of the
  sequence is taken. (The message of that error also quotes the value; only its first
  words are kept here.) Then the server takes the next value of the sequence for the new
  row before it checks the row, and a sequence is never rolled back. The handler passes
  trimmed names of at most 50 characters (the validator's \<^verbatim>\<open>max(50)\<close>), so the length
  limit of the two name columns never applies; the \<^verbatim>\<open>CHECK\<close> on the age does.
\<close>

definition ageCheckViolation :: jsError where
  "ageCheckViolation =
     pgError ''23514''
       (''new row for relation '' @ label ''users'' @ '' violates check constraint '' @
        label ''users_age_check'')"

definition dateOutOfRange :: jsError where
  "dateOutOfRange = pgError ''22008'' ''date out of range''"

definition dateInRange :: "(int \<Rightarrow> int) \<Rightarrow> int \<Rightarrow> bool" where
  "dateInRange tza t =
     (- 4713 < getFullYear tza t \<or>
      (getFullYear tza t = - 4713 \<and>
       (10 < getMonth tza t \<or> (getMonth tza t = 10 \<and> 24 \<le> getDate tza t))))"

definition insertUser ::
  "jsError option \<Rightarrow> int \<Rightarrow> (int \<Rightarrow> int) \<Rightarrow> database \<Rightarrow> string \<Rightarrow> string \<Rightarrow> int \<Rightarrow> int \<Rightarrow> bool \<Rightarrow>
   (jsError + user_row) \<times> database" where
  "insertUser fault now tza db fname lname birth a eligible =
     (case fault of
        Some err \<Rightarrow> (Inl err, db)
      | None \<Rightarrow>
          if dateInRange tza birth
          then
            let newId = users_id_seq db + 1;
                db1 = db\<lparr>users_id_seq := newId\<rparr>
            in if 0 \<le> a \<and> a \<le> 150
               then let row = \<lparr>id' = newId, first_name = fname, last_name = lname,
                                 date_of_birth = birth, age = a, is_eligible = eligible,
                                 created_at = now\<rparr>
                    in (Inr row, db1\<lparr>users := users db1 @ [row]\<rparr>)
               else (Inl ageCheckViolation, db1)
          else (Inl dateOutOfRange, db))"

text \<open>
  \<^verbatim>\<open>
  SELECT COUNT(*) as total_users,
         COUNT(*) FILTER (WHERE is_eligible = true) as eligible_users,
         COUNT(*) FILTER (WHERE is_eligible = false) as ineligible_users,
         ROUND(AVG(age), 2) as average_age
  FROM users
  \<close>
  \<^verbatim>\<open>AVG\<close> of no rows is \<^verbatim>\<open>NULL\<close>, and otherwise the arithmetic mean. \<^verbatim>\<open>ROUND\<close> of
  a \<^verbatim>\<open>numeric\<close> to two places rounds half away from zero. The average is a rational
  number here: the driver hands it over as a decimal string of two places, and
  \<^verbatim>\<open>parseFloat\<close> and the JSON encoder keep the two places.
\<close>

record stats_row =
  total_users :: nat
  eligible_users :: nat
  ineligible_users :: nat
  average_age :: "rat option"

definition mean :: "int list \<Rightarrow> rat" where
  "mean xs = of_int (sum_list xs) / of_int (int (length xs))"

definition AVG :: "int list \<Rightarrow> rat option" where
  "AVG xs = (if xs = [] then None else Some (mean xs))"

definition ROUND2 :: "rat \<Rightarrow> rat" where
  "ROUND2 x =
     (if 0 \<le> x then of_int \<lfloor>x * 100 + 1 / 2\<rfloor> / 100
      else - (of_int \<lfloor>- x * 100 + 1 / 2\<rfloor> / 100))"

definition statsQuery :: "jsError option \<Rightarrow> database \<Rightarrow> jsError + stats_row" where
  "statsQuery fault db =
     (case fault of
        Some err \<Rightarrow> Inl err
      | None \<Rightarrow>
          Inr \<lparr>total_users = length (users db),
               eligible_users = length (filter is_eligible (users db)),
               ineligible_users = length (filter (\<lambda>r. \<not> is_eligible r) (users db)),
               average_age = map_option ROUND2 (AVG (map age (users db)))\<rparr>)"

section \<open>The handlers\<close>

text \<open>
  The JSON bodies the handlers send, and a response with its status:
  \<^verbatim>\<open>{id, age, eligible, message, timestamp}\<close> for a determination,
  \<^verbatim>\<open>{error, details}\<close> for a validation failure, \<^verbatim>\<open>{success, error}\<close> from the error
  middleware, and \<^verbatim>\<open>{totalUsers, eligibleUsers, ineligibleUsers, averageAge}\<close> for the
  statistics.
\<close>

datatype json =
    Determination int int bool string int
  | ValidationFailed string "string list"
  | Failure bool string
  | Statistics nat nat nat rat

record response =
  status :: nat
  json_body :: json

text \<open>
  \<^verbatim>\<open>errorHandler\<close> of \<^verbatim>\<open>middleware/errorHandler.ts\<close>:
  \<^verbatim>\<open>
  let error = { ...err };
  error.message = err.message;
  if (err.name === 'error' && (err as any).code) {
    switch ((err as any).code) {
      case '23505': error = { ...error, message: 'Duplicate entry', statusCode: 409 }; break;
      case '23503': error = { ...error, message: 'Foreign key constraint violation', statusCode: 400 }; break;
      case '23502': error = { ...error, message: 'Required field missing', statusCode: 400 }; break;
      default: error = { ...error, message: 'Database error', statusCode: 500 };
    }
  }
  const statusCode = error.statusCode || 500;
  const message = error.message || 'Internal Server Error';
  res.status(statusCode).json({ success: false, error: message,
    ...(process.env.NODE_ENV === 'development' && { stack: error.stack }) });
  \<close>
  The copy \<^verbatim>\<open>{ ...err }\<close> takes the enumerable own properties of the error (the code and
  the status code among them); the message is copied by hand, and the stack, which is not
  enumerable, is not copied, so the body never has a \<^verbatim>\<open>stack\<close>. A code or status code
  counts when it is truthy.
\<close>

definition errorHandler :: "jsError \<Rightarrow> response" where
  "errorHandler err =
     (let (msg, sc) =
            (if name err = ''error'' \<and> code err \<noteq> None \<and> code err \<noteq> Some []
             then (if code err = Some ''23505'' then (''Duplicate entry'', Some 409)
                   else if code err = Some ''23503''
                     then (''Foreign key constraint violation'', Some 400)
                   else if code err = Some ''23502'' then (''Required field missing'', Some 400)
                   else (''Database error'', Some 500))
             else (message err, statusCode err));
          statusCode = (case sc of None \<Rightarrow> 500 | Some n \<Rightarrow> if n = 0 then 500 else n);
          message = (if msg = [] then ''Internal Server Error'' else msg)
      in \<lparr>status = statusCode, json_body = Failure False message\<rparr>)"

text \<open>
  What the caller is to see of a failed query, as a table, for comparison with the
  middleware: for an error of the database server (named \<^verbatim>\<open>error\<close>, with a code that
  is not empty) the status and message listed for its code, and \<^verbatim>\<open>Database error\<close>
  with the status 500 for every code that is not listed; for any other error its own
  status code (500 when it has none, or 0) and its own message
  (\<^verbatim>\<open>Internal Server Error\<close> when the message is empty).
\<close>

definition serverErrorTable :: "(string \<times> nat \<times> string) list" where
  "serverErrorTable =
     [(''23505'', 409, ''Duplicate entry''),
      (''23503'', 400, ''Foreign key constraint violation''),
      (''23502'', 400, ''Required field missing'')]"

definition isServerError :: "jsError \<Rightarrow> bool" where
  "isServerError err = (name err = ''error'' \<and> code err \<noteq> None \<and> code err \<noteq> Some [])"

definition serverErrorResponse :: "string option \<Rightarrow> response" where
  "serverErrorResponse c =
     (case map_option (map_of serverErrorTable) c of
        Some (Some (sc, m)) \<Rightarrow> \<lparr>status = sc, json_body = Failure False m\<rparr>
      | _ \<Rightarrow> \<lparr>status = 500, json_body = Failure False ''Database error''\<rparr>)"

definition ownMessageResponse :: "jsError \<Rightarrow> response" where
  "ownMessageResponse err =
     \<lparr>status = (case statusCode err of None \<Rightarrow> 500 | Some 0 \<Rightarrow> 500 | Some (Suc n) \<Rightarrow> Suc n),
      json_body = Failure False
        (case message err of [] \<Rightarrow> ''Internal Server Error'' | c # cs \<Rightarrow> c # cs)\<rparr>"

definition reportedFailure :: "jsError \<Rightarrow> response" where
  "reportedFailure err =
     (if isServerError err then serverErrorResponse (code err) else ownMessageResponse err)"

text \<open>
  \<^verbatim>\<open>userSchema.validate(req.body)\<close>: the errors of the three keys in the order of the
  schema, then of the unknown keys; the value, with the date converted, when there is no
  error.
\<close>

datatype validated = Validated string string int

definition keyErrors :: "env \<Rightarrow> prefs \<Rightarrow> body \<Rightarrow> string list list" where
  "keyErrors e p b =
     [validateString p ''firstName'' firstNameMessages (firstName b),
      validateString p ''lastName'' lastNameMessages (lastName b),
      fst (validateDate (isoDate e) (validatorNow e) (dateOfBirth b))] @
     map (\<lambda>k. [label k @ '' is not allowed'']) (unknownKeys b)"

definition validate :: "env \<Rightarrow> prefs \<Rightarrow> body \<Rightarrow> string list + validated" where
  "validate e p b =
     (let errors = collect p (keyErrors e p b);
          date = snd (validateDate (isoDate e) (validatorNow e) (dateOfBirth b))
      in case (errors, firstName b, lastName b, date) of
           ([], JStr fname, JStr lname, Some birth) \<Rightarrow> Inr (Validated fname lname birth)
         | _ \<Rightarrow> Inl errors)"

definition userSchema_validate :: "env \<Rightarrow> body \<Rightarrow> string list + validated" where
  "userSchema_validate e b = validate e defaults b"

text \<open>
  The report the specification describes, for comparison: one message for every violated
  rule, the rules of \<^verbatim>\<open>firstName\<close> before those of \<^verbatim>\<open>lastName\<close> before those of
  \<^verbatim>\<open>dateOfBirth\<close> (and then the unknown keys). A value of the wrong base type violates
  that one rule.
\<close>

definition allViolations :: "env \<Rightarrow> body \<Rightarrow> string list" where
  "allViolations e b =
     validateString \<lparr>abortEarly = False\<rparr> ''firstName'' firstNameMessages (firstName b) @
     validateString \<lparr>abortEarly = False\<rparr> ''lastName'' lastNameMessages (lastName b) @
     fst (validateDate (isoDate e) (validatorNow e) (dateOfBirth b)) @
     map (\<lambda>k. label k @ '' is not allowed'') (unknownKeys b)"

text \<open>
  \<^verbatim>\<open>app.post('/api/check-eligibility', ...)\<close>: the response and the database after the
  call.
  \<^verbatim>\<open>
  const { error, value } = userSchema.validate(req.body);
  if (error) {
    return res.status(400).json({ error: 'Validation failed',
      details: error.details.map(detail => detail.message) });
  }
  const { firstName, lastName, dateOfBirth } = value;
  const age = calculateAge(dateOfBirth);
  const isEligible = age >= 18;
  const result = await pool.query(query,
    [firstName.trim(), lastName.trim(), dateOfBirth, age, isEligible]);
  res.status(201).json({ id: result.rows[0]?.id, age, eligible: isEligible,
    message: isEligible ? 'You are eligible for the program'
                        : 'You are not eligible for the program',
    timestamp: result.rows[0]?.created_at });
  \<close>
  A rejected query is thrown, caught and passed to the error middleware.
\<close>

definition checkEligibility :: "env \<Rightarrow> body \<Rightarrow> database \<Rightarrow> response \<times> database" where
  "checkEligibility e b db =
     (case userSchema_validate e b of
        Inl details \<Rightarrow>
          (\<lparr>status = 400, json_body = ValidationFailed ''Validation failed'' details\<rparr>, db)
      | Inr (Validated fname lname birth) \<Rightarrow>
          let age = calculateAge (localTZA e) (today e) birth;
              isEligible = (18 \<le> age)
          in case insertUser (queryFault e) (dbNow e) (localTZA e) db (trim fname) (trim lname)
                    birth age isEligible of
               (Inl err, db') \<Rightarrow> (errorHandler err, db')
             | (Inr row, db') \<Rightarrow>
                 (\<lparr>status = 201,
                   json_body = Determination (id' row) age isEligible
                     (if isEligible then ''You are eligible for the program''
                      else ''You are not eligible for the program'')
                     (created_at row)\<rparr>, db'))"

text \<open>
  The query of that handler on its own, for a validated value: what
  \<^verbatim>\<open>await pool.query(query, [...])\<close> gives, a thrown error or the returned row, and the
  database after it.
\<close>

definition storeOutcome :: "env \<Rightarrow> validated \<Rightarrow> database \<Rightarrow> (jsError + user_row) \<times> database" where
  "storeOutcome e v db =
     (case v of
        Validated fname lname birth \<Rightarrow>
          let age = calculateAge (localTZA e) (today e) birth
          in insertUser (queryFault e) (dbNow e) (localTZA e) db (trim fname) (trim lname)
               birth age (18 \<le> age))"

text \<open>
  \<^verbatim>\<open>app.get('/api/stats', ...)\<close>. \<^verbatim>\<open>parseFloat(stats.average_age) || 0\<close> is 0 for
  \<^verbatim>\<open>NULL\<close> (and for an average of 0).
\<close>

definition getStatistics :: "env \<Rightarrow> database \<Rightarrow> response" where
  "getStatistics e db =
     (case statsQuery (queryFault e) db of
        Inl err \<Rightarrow> errorHandler err
      | Inr stats \<Rightarrow>
          \<lparr>status = 200,
           json_body = Statistics (total_users stats) (eligible_users stats)
             (ineligible_users stats)
             (case average_age stats of None \<Rightarrow> 0 | Some avg \<Rightarrow> avg)\<rparr>)"

section \<open>A sample host\<close>

text \<open>
  A host for the examples: UTC, the validator's clock at 2024-06-15T12:00:00.000Z, the
  clock of \<^verbatim>\<open>calculateAge\<close> a millisecond later, no rejected query, and the ISO parser on
  the date strings the examples use (each the midnight UTC of its date).
\<close>

definition sampleParse :: "jsval \<Rightarrow> int option" where
  "sampleParse v =
     (if v = JStr ''1990-01-01'' then Some 631152000000
      else if v = JStr ''2010-01-01'' then Some 1262304000000
      else if v = JStr ''2026-01-01'' then Some 1767225600000
      else if v = JStr ''1800-01-01'' then Some (- 5364662400000)
      else None)"

definition sampleEnv :: env where
  "sampleEnv =
     \<lparr>isoDate = sampleParse, validatorNow = 1718452800000, today = 1718452800001,
      localTZA = (\<lambda>t. 0), queryFault = None, dbNow = 1718452800002\<rparr>"

definition emptyDb :: database where
  "emptyDb = \<lparr>users = [], users_id_seq = 0\<rparr>"

text \<open>Request bodies of the examples.\<close>

definition johnDoe :: body where
  "johnDoe =
     \<lparr>firstName = JStr ''John'', lastName = JStr ''Doe'', dateOfBirth = JStr ''1990-01-01'',
      unknownKeys = []\<rparr>"

definition emptyFirstName :: body where
  "emptyFirstName =
     \<lparr>firstName = JStr [], lastName = JStr ''Doe'', dateOfBirth = JStr ''1990-01-01'',
      unknownKeys = []\<rparr>"

definition blankFirstName :: body where
  "blankFirstName =
     \<lparr>firstName = JStr '' '', lastName = JStr ''Doe'', dateOfBirth = JStr ''1990-01-01'',
      unknownKeys = []\<rparr>"

definition twoBadNames :: body where
  "twoBadNames =
     \<lparr>firstName = JStr ''John123'', lastName = JStr ''Doe456'',
      dateOfBirth = JStr ''1990-01-01'', unknownKeys = []\<rparr>"

definition bornIn2026 :: body where
  "bornIn2026 =
     \<lparr>firstName = JStr ''John'', lastName = JStr ''Doe'', dateOfBirth = JStr ''2026-01-01'',
      unknownKeys = []\<rparr>"

definition bornIn1800 :: body where
  "bornIn1800 =
     \<lparr>firstName = JStr ''John'', lastName = JStr ''Doe'', dateOfBirth = JStr ''1800-01-01'',
      unknownKeys = []\<rparr>"



text \<open>
  Two failures of the connection, and an error of the server with the code of a violated
  check and a message of its own.
\<close>

definition connectionFailed :: jsError where
  "connectionFailed =
     \<lparr>name = ''Error'', message = ''Database connection failed'', code = None,
      statusCode = None\<rparr>"

definition connectionRefused :: jsError where
  "connectionRefused =
     \<lparr>name = ''Error'', message = ''connect ECONNREFUSED 127.0.0.1:5432'',
      code = Some ''ECONNREFUSED'', statusCode = None\<rparr>"

definition checkViolated :: jsError where
  "checkViolated = pgError ''23514'' ''new row violates a check constraint of another table''"

text \<open>A table of three rows, of the ages 20, 20 and 21.\<close>

definition threeUsers :: database where
  "threeUsers =
     \<lparr>users =
        [\<lparr>id' = 1, first_name = ''Ann'', last_name = ''Lee'', date_of_birth = 0, age = 20,
          is_eligible = True, created_at = 0\<rparr>,
         \<lparr>id' = 2, first_name = ''Bob'', last_name = ''Ray'', date_of_birth = 0, age = 20,
          is_eligible = True, created_at = 0\<rparr>,
         \<lparr>id' = 3, first_name = ''Cy'', last_name = ''Orr'', date_of_birth = 0, age = 21,
          is_eligible = True, created_at = 0\<rparr>],
      users_id_seq = 3\<rparr>"

section \<open>The calendar: years, months and dates are monotone in the day\<close>

text \<open>
  Division facts for the three terms of \<open>DayFromYear\<close>: a quotient moves by one exactly
  at a multiple of the divisor.
\<close>

lemma div_succ:
  fixes x n :: int
  assumes "1 < n"
  shows "(x + 1) div n = x div n + (if x mod n = n - 1 then 1 else 0)"
proof -
  have b: "0 \<le> x mod n" "x mod n < n" using assms by simp_all
  have "(x + 1) div n = x div n + 1 div n + (x mod n + 1 mod n) div n"
    by (rule div_add1_eq)
  moreover have "1 div n = 0" "1 mod n = 1" using assms by simp_all
  moreover have "(x mod n + 1) div n = (if x mod n = n - 1 then 1 else 0)"
  proof (cases "x mod n = n - 1")
    case True
    then show ?thesis using assms by simp
  next
    case False
    then have "x mod n + 1 < n" using b by linarith
    then have "(x mod n + 1) div n = 0" using b by (simp add: div_pos_pos_trivial)
    then show ?thesis using False by simp
  qed
  ultimately show ?thesis by simp
qed

lemma mod_pred_iff_dvd:
  fixes x n :: int
  assumes "1 < n"
  shows "(x mod n = n - 1) = (n dvd x + 1)"
proof -
  have b: "0 \<le> x mod n" "x mod n < n" using assms by simp_all
  have e: "(x + 1) mod n = (x mod n + 1) mod n" by (simp add: mod_add_left_eq)
  show ?thesis
  proof (cases "x mod n = n - 1")
    case True
    then have "(x + 1) mod n = 0" using e by simp
    then show ?thesis using True by (simp add: dvd_eq_mod_eq_0)
  next
    case False
    then have "x mod n + 1 < n" using b by linarith
    then have "(x mod n + 1) mod n = x mod n + 1" using b by (simp add: mod_pos_pos_trivial)
    then have "(x + 1) mod n \<noteq> 0" using e b by linarith
    then show ?thesis using False by (simp add: dvd_eq_mod_eq_0)
  qed
qed

lemma shifted_mod_pred:
  fixes y k n :: int
  assumes "1 < n" "n dvd k - 1"
  shows "((y - k) mod n = n - 1) = (y mod n = 0)"
proof -
  have "((y - k) mod n = n - 1) = (n dvd (y - k) + 1)"
    using assms(1) by (rule mod_pred_iff_dvd)
  also have "(y - k) + 1 = y - (k - 1)" by simp
  also have "(n dvd y - (k - 1)) = (n dvd y)"
    using assms(2) by (rule dvd_diff_left_iff)
  also have "\<dots> = (y mod n = 0)" by (simp add: dvd_eq_mod_eq_0)
  finally show ?thesis .
qed

text \<open>The first day of the next year is a year's number of days later.\<close>

lemma DayFromYear_step: "DayFromYear (y + 1) = DayFromYear y + DaysInYear y"
proof -
  have s4: "(y + 1 - 1969) div 4 = (y - 1969) div 4 + (if y mod 4 = 0 then 1 else 0)"
  proof -
    have "(y + 1 - 1969) = (y - 1969) + 1" by simp
    then have "(y + 1 - 1969) div 4 = ((y - 1969) + 1) div 4" by simp
    also have "\<dots> = (y - 1969) div 4 + (if (y - 1969) mod 4 = 4 - 1 then 1 else 0)"
      by (rule div_succ) simp
    also have "((y - 1969) mod 4 = 4 - 1) = (y mod 4 = 0)"
      by (rule shifted_mod_pred) simp_all
    finally show ?thesis .
  qed
  have s100: "(y + 1 - 1901) div 100 = (y - 1901) div 100 + (if y mod 100 = 0 then 1 else 0)"
  proof -
    have "(y + 1 - 1901) = (y - 1901) + 1" by simp
    then have "(y + 1 - 1901) div 100 = ((y - 1901) + 1) div 100" by simp
    also have "\<dots> = (y - 1901) div 100 + (if (y - 1901) mod 100 = 100 - 1 then 1 else 0)"
      by (rule div_succ) simp
    also have "((y - 1901) mod 100 = 100 - 1) = (y mod 100 = 0)"
      by (rule shifted_mod_pred) simp_all
    finally show ?thesis .
  qed
  have s400: "(y + 1 - 1601) div 400 = (y - 1601) div 400 + (if y mod 400 = 0 then 1 else 0)"
  proof -
    have "(y + 1 - 1601) = (y - 1601) + 1" by simp
    then have "(y + 1 - 1601) div 400 = ((y - 1601) + 1) div 400" by simp
    also have "\<dots> = (y - 1601) div 400 + (if (y - 1601) mod 400 = 400 - 1 then 1 else 0)"
      by (rule div_succ) simp
    also have "((y - 1601) mod 400 = 400 - 1) = (y mod 400 = 0)"
      by (rule shifted_mod_pred) simp_all
    finally show ?thesis .
  qed
  have c1: "y mod 100 = 0 \<Longrightarrow> y mod 4 = 0"
  proof -
    assume "y mod 100 = 0"
    then have "100 dvd y" by (simp add: dvd_eq_mod_eq_0)
    moreover have "(4::int) dvd 100" by simp
    ultimately have "4 dvd y" by (rule dvd_trans[rotated])
    then show ?thesis by (simp add: dvd_eq_mod_eq_0)
  qed
  have c2: "y mod 400 = 0 \<Longrightarrow> y mod 100 = 0"
  proof -
    assume "y mod 400 = 0"
    then have "400 dvd y" by (simp add: dvd_eq_mod_eq_0)
    moreover have "(100::int) dvd 400" by simp
    ultimately have "100 dvd y" by (rule dvd_trans[rotated])
    then show ?thesis by (simp add: dvd_eq_mod_eq_0)
  qed
  define A :: int where "A = (if y mod 4 = 0 then 1 else 0)"
  define B :: int where "B = (if y mod 100 = 0 then 1 else 0)"
  define C :: int where "C = (if y mod 400 = 0 then 1 else 0)"
  define q4 where "q4 = (y - 1969) div 4"
  define q100 where "q100 = (y - 1901) div 100"
  define q400 where "q400 = (y - 1601) div 400"
  have e: "DaysInYear y = 365 + A - B + C"
    using c1 c2 by (cases "y mod 4 = 0"; cases "y mod 100 = 0"; cases "y mod 400 = 0")
      (simp_all add: DaysInYear_def A_def B_def C_def)
  have "DayFromYear (y + 1) =
      365 * (y + 1 - 1970) + (q4 + A) - (q100 + B) + (q400 + C)"
    unfolding DayFromYear_def s4 s100 s400 A_def B_def C_def q4_def q100_def q400_def ..
  moreover have "DayFromYear y = 365 * (y - 1970) + q4 - q100 + q400"
    unfolding DayFromYear_def q4_def q100_def q400_def ..
  ultimately show ?thesis using e by simp
qed


lemma DaysInYear_bounds: "365 \<le> DaysInYear y" "DaysInYear y \<le> 366"
  by (simp_all add: DaysInYear_def)

lemma DayFromYear_mono: "a \<le> b \<Longrightarrow> DayFromYear a \<le> DayFromYear b"
proof (induction b rule: int_ge_induct)
  case base
  show ?case by simp
next
  case (step i)
  have "DayFromYear i \<le> DayFromYear (i + 1)"
    using DayFromYear_step[of i] DaysInYear_bounds(1)[of i] by linarith
  with step.IH show ?case by linarith
qed

lemma DayFromYear_epoch: "DayFromYear 1970 = 0"
  by (simp add: DayFromYear_def)

lemma DayFromYear_after:
  "1970 \<le> y \<Longrightarrow> 365 * (y - 1970) \<le> DayFromYear y \<and> DayFromYear y \<le> 366 * (y - 1970)"
proof (induction y rule: int_ge_induct)
  case base
  show ?case by (simp add: DayFromYear_epoch)
next
  case (step i)
  then show ?case
    using DayFromYear_step[of i] DaysInYear_bounds[of i] by auto
qed

lemma DayFromYear_before:
  "y \<le> 1970 \<Longrightarrow> 366 * (y - 1970) \<le> DayFromYear y \<and> DayFromYear y \<le> 365 * (y - 1970)"
proof (induction y rule: int_le_induct)
  case base
  show ?case by (simp add: DayFromYear_epoch)
next
  case (step i)
  then show ?case
    using DayFromYear_step[of "i - 1"] DaysInYear_bounds[of "i - 1"] by auto
qed

lemma yearUp_spec:
  "DayFromYear y \<le> d \<Longrightarrow> y \<le> hi \<Longrightarrow> d < DayFromYear hi \<Longrightarrow>
   DayFromYear (yearUp d hi y) \<le> d \<and> d < DayFromYear (yearUp d hi y + 1)"
proof (induction d hi y rule: yearUp.induct)
  case (1 d hi y)
  show ?case
  proof (cases "y < hi \<and> DayFromYear (y + 1) \<le> d")
    case True
    then have "yearUp d hi y = yearUp d hi (y + 1)" by (subst yearUp.simps) (simp only: if_P if_True)
    moreover have "DayFromYear (yearUp d hi (y + 1)) \<le> d \<and>
        d < DayFromYear (yearUp d hi (y + 1) + 1)"
      using "1.IH"[OF True] True "1.prems" by simp
    ultimately show ?thesis by simp
  next
    case False
    then have r: "yearUp d hi y = y" by (subst yearUp.simps) (simp only: if_not_P if_False)
    have "d < DayFromYear (y + 1)"
    proof (cases "y < hi")
      case True
      with False show ?thesis by simp
    next
      case False
      with "1.prems" have "y = hi" by simp
      with "1.prems" show ?thesis by simp
    qed
    with r "1.prems" show ?thesis by simp
  qed
qed


text \<open>
  The bounded search finds the year of the language definition: the year starts on or
  before the day, the next year starts after it, and no later year starts on or before it.
\<close>

lemma YearFromDay_spec:
  "DayFromYear (YearFromDay d) \<le> d \<and> d < DayFromYear (YearFromDay d + 1)"
proof (cases "0 \<le> d")
  case True
  define lo where "lo = 1970 + d div 366"
  define hi where "hi = 1970 + d div 365 + 1"
  have m366: "d = 366 * (d div 366) + d mod 366" "0 \<le> d mod 366" "d mod 366 < 366" by simp_all
  have m365: "d = 365 * (d div 365) + d mod 365" "0 \<le> d mod 365" "d mod 365 < 365" by simp_all
  have p: "0 \<le> d div 366" "0 \<le> d div 365" using True by (simp_all add: pos_imp_zdiv_nonneg_iff)
  have "DayFromYear lo \<le> 366 * (lo - 1970)"
    using DayFromYear_after[of lo] p by (simp add: lo_def)
  then have a: "DayFromYear lo \<le> d" using m366 by (simp add: lo_def)
  have "365 * (hi - 1970) \<le> DayFromYear hi"
    using DayFromYear_after[of hi] p by (simp add: hi_def)
  then have b: "d < DayFromYear hi" using m365 by (simp add: hi_def)
  have c: "lo \<le> hi"
  proof (rule ccontr)
    assume "\<not> lo \<le> hi"
    then have "DayFromYear hi \<le> DayFromYear lo" by (simp add: DayFromYear_mono)
    with a b show False by simp
  qed
  have "YearFromDay d = yearUp d hi lo" using True by (simp add: YearFromDay_def lo_def hi_def)
  with yearUp_spec[OF a c b] show ?thesis by simp
next
  case False
  define lo where "lo = 1970 + d div 365"
  define hi where "hi = 1970 + d div 366 + 1"
  have m366: "d = 366 * (d div 366) + d mod 366" "0 \<le> d mod 366" "d mod 366 < 366" by simp_all
  have m365: "d = 365 * (d div 365) + d mod 365" "0 \<le> d mod 365" "d mod 365 < 365" by simp_all
  have p: "d div 366 < 0" "d div 365 < 0" using False by (simp_all add: div_neg_pos_less0)
  have "DayFromYear lo \<le> 365 * (lo - 1970)"
    using DayFromYear_before[of lo] p by (simp add: lo_def)
  then have a: "DayFromYear lo \<le> d" using m365 by (simp add: lo_def)
  have "366 * (hi - 1970) \<le> DayFromYear hi"
    using DayFromYear_before[of hi] p by (simp add: hi_def)
  then have b: "d < DayFromYear hi" using m366 by (simp add: hi_def)
  have c: "lo \<le> hi"
  proof (rule ccontr)
    assume "\<not> lo \<le> hi"
    then have "DayFromYear hi \<le> DayFromYear lo" by (simp add: DayFromYear_mono)
    with a b show False by simp
  qed
  have "YearFromDay d = yearUp d hi lo" using False by (simp add: YearFromDay_def lo_def hi_def)
  with yearUp_spec[OF a c b] show ?thesis by simp
qed

lemma YearFromDay_mono: "d1 \<le> d2 \<Longrightarrow> YearFromDay d1 \<le> YearFromDay d2"
proof (rule ccontr)
  assume le: "d1 \<le> d2" and "\<not> YearFromDay d1 \<le> YearFromDay d2"
  then have "YearFromDay d2 + 1 \<le> YearFromDay d1" by simp
  then have "DayFromYear (YearFromDay d2 + 1) \<le> DayFromYear (YearFromDay d1)"
    by (rule DayFromYear_mono)
  with YearFromDay_spec[of d1] YearFromDay_spec[of d2] le show False by linarith
qed



lemma DayWithinYear_bounds:
  "0 \<le> DayWithinYear t \<and> DayWithinYear t < DaysInYear (YearFromTime t)"
  using YearFromDay_spec[of "Day t"] DayFromYear_step[of "YearFromDay (Day t)"]
  by (simp add: DayWithinYear_def YearFromTime_def)

lemma monthOfDay_mono: "a \<le> b \<Longrightarrow> monthOfDay l a \<le> monthOfDay l b"
  by (simp add: monthOfDay_def)

lemma dateOfDay_mono:
  "a \<le> b \<Longrightarrow> monthOfDay l a = monthOfDay l b \<Longrightarrow> dateOfDay l a \<le> dateOfDay l b"
  by (simp add: dateOfDay_def Let_def)

text \<open>The calendar fields of a later instant are not before those of an earlier one.\<close>

lemma fields_mono:
  assumes "Day s \<le> Day t"
  shows "YearFromTime s < YearFromTime t \<or>
         (YearFromTime s = YearFromTime t \<and>
           (MonthFromTime s < MonthFromTime t \<or>
            (MonthFromTime s = MonthFromTime t \<and> DateFromTime s \<le> DateFromTime t)))"
proof (cases "YearFromTime s = YearFromTime t")
  case False
  moreover have "YearFromTime s \<le> YearFromTime t"
    unfolding YearFromTime_def using assms by (rule YearFromDay_mono)
  ultimately show ?thesis by simp
next
  case True
  then have l: "InLeapYear s = InLeapYear t" by (simp add: InLeapYear_def)
  have w: "DayWithinYear s \<le> DayWithinYear t"
    using assms True by (simp add: DayWithinYear_def)
  have m: "MonthFromTime s \<le> MonthFromTime t"
    unfolding MonthFromTime_def l using w by (rule monthOfDay_mono)
  show ?thesis
  proof (cases "MonthFromTime s = MonthFromTime t")
    case False
    with m True show ?thesis by simp
  next
    case eq: True
    then have "monthOfDay (InLeapYear t) (DayWithinYear s) = monthOfDay (InLeapYear t) (DayWithinYear t)"
      by (simp add: MonthFromTime_def l)
    with w have "dateOfDay (InLeapYear t) (DayWithinYear s) \<le> dateOfDay (InLeapYear t) (DayWithinYear t)"
      by (rule dateOfDay_mono)
    then have "DateFromTime s \<le> DateFromTime t" by (simp add: DateFromTime_def l)
    with True eq show ?thesis by simp
  qed
qed

lemma calculateAge_nonneg:
  assumes "Day (LocalTime tza birthDate) \<le> Day (LocalTime tza asOf)"
  shows "0 \<le> calculateAge tza asOf birthDate"
  using fields_mono[OF assms]
  by (auto simp add: calculateAge_def Let_def getFullYear_def getMonth_def getDate_def)









section \<open>The validator: what is reported and what is accepted\<close>

lemma collect_abort: "collect \<lparr>abortEarly = True\<rparr> (map (take 1) ls) = take 1 (concat ls)"
proof (induction ls)
  case Nil
  show ?case by simp
next
  case (Cons a ls)
  then show ?case by (cases a) simp_all
qed

lemma collect_all: "collect \<lparr>abortEarly = False\<rparr> ls = concat ls"
  by (induction ls) auto

lemma collect_Nil: "collect p ls = [] \<Longrightarrow> concat ls = []"
  by (induction ls) (auto split: if_splits)

lemma validateString_abort:
  "validateString \<lparr>abortEarly = True\<rparr> key m v =
   take 1 (validateString \<lparr>abortEarly = False\<rparr> key m v)"
  by (cases v) (simp_all add: validateString_def)

lemma validateDate_length: "length (fst (validateDate parse now v)) \<le> 1"
  by (cases v) (auto simp add: validateDate_def split: option.splits)

lemma validateDate_Nil:
  "validateDate parse now v = ([], d) \<Longrightarrow>
   \<exists>t. d = Some t \<and> coerceDate parse v = Some t \<and> t \<le> now"
  by (cases v) (auto simp add: validateDate_def split: option.splits if_splits)


lemma short_take: "length xs \<le> 1 \<Longrightarrow> take 1 xs = xs"
  by simp

lemma keyErrors_abort:
  "keyErrors e \<lparr>abortEarly = True\<rparr> b = map (take 1) (keyErrors e \<lparr>abortEarly = False\<rparr> b)"
proof -
  have "take 1 (fst (validateDate (isoDate e) (validatorNow e) (dateOfBirth b))) =
        fst (validateDate (isoDate e) (validatorNow e) (dateOfBirth b))"
    by (rule short_take) (rule validateDate_length)
  then show ?thesis
    by (simp add: keyErrors_def validateString_abort comp_def)
qed

lemma concat_keyErrors: "concat (keyErrors e \<lparr>abortEarly = False\<rparr> b) = allViolations e b"
  by (simp add: keyErrors_def allViolations_def concat_map_singleton)

lemma errors_abort:
  "collect defaults (keyErrors e defaults b) = take 1 (allViolations e b)"
  by (simp only: defaults_def keyErrors_abort collect_abort concat_keyErrors)

lemma errors_all:
  "collect \<lparr>abortEarly = False\<rparr> (keyErrors e \<lparr>abortEarly = False\<rparr> b) = allViolations e b"
  by (simp only: collect_all concat_keyErrors)

lemma validate_errors:
  assumes "collect p (keyErrors e p b) \<noteq> []"
  shows "validate e p b = Inl (collect p (keyErrors e p b))"
  using assms by (cases "collect p (keyErrors e p b)") (simp_all add: validate_def)

lemma validate_Inl:
  assumes "allViolations e b \<noteq> []"
  shows "userSchema_validate e b = Inl (take 1 (allViolations e b))"
proof -
  have "take 1 (allViolations e b) \<noteq> []" using assms by (cases "allViolations e b") simp_all
  then have "collect defaults (keyErrors e defaults b) \<noteq> []"
    unfolding errors_abort .
  then have "validate e defaults b = Inl (collect defaults (keyErrors e defaults b))"
    by (rule validate_errors)
  then show ?thesis by (simp only: userSchema_validate_def errors_abort)
qed

text \<open>A value comes out only when no rule is violated.\<close>

lemma validateString_Nil:
  "validateString p key m v = [] \<Longrightarrow> \<exists>s. v = JStr s"
  by (cases v) (simp_all add: validateString_def)

lemma validate_Inr:
  assumes "validate e p b = Inr (Validated fname lname birth)"
  shows "firstName b = JStr fname \<and> lastName b = JStr lname \<and>
         validateString p ''firstName'' firstNameMessages (firstName b) = [] \<and>
         validateString p ''lastName'' lastNameMessages (lastName b) = [] \<and>
         coerceDate (isoDate e) (dateOfBirth b) = Some birth \<and> birth \<le> validatorNow e \<and>
         unknownKeys b = []"
proof -
  let ?vd = "validateDate (isoDate e) (validatorNow e) (dateOfBirth b)"
  have c: "collect p (keyErrors e p b) = []"
    using assms by (cases "collect p (keyErrors e p b)") (simp_all add: validate_def)
  then have k: "concat (keyErrors e p b) = []" by (rule collect_Nil)
  then have f: "validateString p ''firstName'' firstNameMessages (firstName b) = []"
    and l: "validateString p ''lastName'' lastNameMessages (lastName b) = []"
    and d: "fst ?vd = []" and u: "unknownKeys b = []"
    by (simp_all add: keyErrors_def)
  have v: "firstName b = JStr fname \<and> lastName b = JStr lname \<and> snd ?vd = Some birth"
    using assms c
    by (simp add: validate_def split: jsval.splits option.splits)
  then have "?vd = ([], Some birth)" using d by (cases ?vd) simp
  then have "coerceDate (isoDate e) (dateOfBirth b) = Some birth \<and> birth \<le> validatorNow e"
    using validateDate_Nil by fastforce
  with f l u v show ?thesis by simp
qed


text \<open>The validator fails with at least one message: its last case is never reached.\<close>

lemma validate_Inl_nonempty:
  assumes "validate e p b = Inl errors"
  shows "errors \<noteq> []"
proof
  assume "errors = []"
  let ?vd = "validateDate (isoDate e) (validatorNow e) (dateOfBirth b)"
  have c: "collect p (keyErrors e p b) = []"
  proof (rule ccontr)
    assume "collect p (keyErrors e p b) \<noteq> []"
    from validate_errors[OF this] assms \<open>errors = []\<close> this show False by simp
  qed
  then have k: "concat (keyErrors e p b) = []" by (rule collect_Nil)
  then have f: "validateString p ''firstName'' firstNameMessages (firstName b) = []"
    and l: "validateString p ''lastName'' lastNameMessages (lastName b) = []"
    and d: "fst ?vd = []"
    by (simp_all add: keyErrors_def)
  obtain fname where fn: "firstName b = JStr fname" using validateString_Nil[OF f] by blast
  obtain lname where ln: "lastName b = JStr lname" using validateString_Nil[OF l] by blast
  have "?vd = ([], snd ?vd)" using d by (cases ?vd) simp
  from validateDate_Nil[OF this] obtain t where "snd ?vd = Some t" by blast
  with c fn ln have "validate e p b = Inr (Validated fname lname t)"
    by (simp add: validate_def)
  with assms show False by simp
qed

section \<open>The store and the error middleware\<close>

lemma errorHandler_body: "\<exists>sc m. errorHandler err = \<lparr>status = sc, json_body = Failure False m\<rparr>"
  by (simp add: errorHandler_def Let_def split: prod.splits)

lemma errorHandler_server:
  assumes "name err = ''error''" and "code err = Some c" and "c \<noteq> []"
  shows "errorHandler err =
     (if c = ''23505'' then \<lparr>status = 409, json_body = Failure False ''Duplicate entry''\<rparr>
      else if c = ''23503''
        then \<lparr>status = 400, json_body = Failure False ''Foreign key constraint violation''\<rparr>
      else if c = ''23502''
        then \<lparr>status = 400, json_body = Failure False ''Required field missing''\<rparr>
      else \<lparr>status = 500, json_body = Failure False ''Database error''\<rparr>)"
  using assms by (simp add: errorHandler_def)

lemma insertUser_Inr:
  assumes "insertUser fault now tza db fname lname birth a el = (Inr row, db')"
  shows "0 \<le> a \<and> a \<le> 150 \<and>
         row = \<lparr>id' = users_id_seq db + 1, first_name = fname, last_name = lname,
                 date_of_birth = birth, age = a, is_eligible = el, created_at = now\<rparr> \<and>
         db' = \<lparr>users = users db @ [row], users_id_seq = users_id_seq db + 1\<rparr>"
  using assms
  by (cases fault) (auto simp add: insertUser_def Let_def split: if_splits)

lemma insertUser_date_out_of_range:
  "\<not> dateInRange tza birth \<Longrightarrow>
   insertUser None now tza db fname lname birth a el = (Inl dateOutOfRange, db)"
  by (simp add: insertUser_def)

lemma ROUND2_close: "\<bar>ROUND2 x - x\<bar> \<le> 1 / 200"
proof (cases "0 \<le> x")
  case True
  define n where "n = \<lfloor>x * 100 + 1 / 2\<rfloor>"
  have "of_int n \<le> x * 100 + 1 / 2" "x * 100 + 1 / 2 < of_int n + 1"
    unfolding n_def by linarith+
  then have "of_int n / 100 - x \<le> 1 / 200" "- (of_int n / 100 - x) \<le> 1 / 200"
    by linarith+
  then have "\<bar>of_int n / 100 - x\<bar> \<le> 1 / 200" by (simp only: abs_le_iff)
  then show ?thesis using True by (simp only: ROUND2_def n_def if_True)
next
  case False
  define n where "n = \<lfloor>- x * 100 + 1 / 2\<rfloor>"
  have "of_int n \<le> - x * 100 + 1 / 2" "- x * 100 + 1 / 2 < of_int n + 1"
    unfolding n_def by linarith+
  then have "- (of_int n / 100) - x \<le> 1 / 200" "- (- (of_int n / 100) - x) \<le> 1 / 200"
    by linarith+
  then have "\<bar>- (of_int n / 100) - x\<bar> \<le> 1 / 200" by (simp only: abs_le_iff)
  then show ?thesis using False by (simp only: ROUND2_def n_def if_False)
qed

lemma take1_append3: "take 1 (xs @ ys @ [z] @ us) = take 1 (take 1 xs @ take 1 ys @ [z])"
  by (cases xs; cases ys) simp_all

text \<open>The middleware answers as the table says, and a failed query is passed to it.\<close>

lemma errorHandler_reported: "errorHandler err = reportedFailure err"
proof (cases "isServerError err")
  case True
  then obtain c where c: "name err = ''error''" "code err = Some c" "c \<noteq> []"
    by (auto simp add: isServerError_def)
  have "reportedFailure err = serverErrorResponse (Some c)"
    using True c by (simp add: reportedFailure_def)
  also have "\<dots> =
     (if c = ''23505'' then \<lparr>status = 409, json_body = Failure False ''Duplicate entry''\<rparr>
      else if c = ''23503''
        then \<lparr>status = 400, json_body = Failure False ''Foreign key constraint violation''\<rparr>
      else if c = ''23502''
        then \<lparr>status = 400, json_body = Failure False ''Required field missing''\<rparr>
      else \<lparr>status = 500, json_body = Failure False ''Database error''\<rparr>)"
    by (simp add: serverErrorResponse_def serverErrorTable_def)
  also have "\<dots> = errorHandler err" using errorHandler_server[OF c] by simp
  finally show ?thesis by simp
next
  case False
  then have n: "\<not> (name err = ''error'' \<and> code err \<noteq> None \<and> code err \<noteq> Some [])"
    by (simp add: isServerError_def)
  have "errorHandler err = ownMessageResponse err"
    using n by (cases "statusCode err"; cases "message err")
      (auto simp add: errorHandler_def ownMessageResponse_def Let_def split: nat.splits)
  with False show ?thesis by (simp add: reportedFailure_def)
qed

lemma checkEligibility_failure:
  assumes "userSchema_validate e b = Inr v" and "storeOutcome e v db = (Inl err, db')"
  shows "checkEligibility e b db = (errorHandler err, db')"
  using assms by (cases v) (simp add: checkEligibility_def storeOutcome_def Let_def)

section \<open>The sample host, evaluated\<close>

lemma sample_johnDoe:
  "checkEligibility sampleEnv johnDoe emptyDb =
      (\<lparr>status = 201,
        json_body = Determination 1 34 True ''You are eligible for the program'' 1718452800002\<rparr>,
       \<lparr>users = [\<lparr>id' = 1, first_name = ''John'', last_name = ''Doe'',
                  date_of_birth = 631152000000, age = 34, is_eligible = True,
                  created_at = 1718452800002\<rparr>],
        users_id_seq = 1\<rparr>)"
  by code_simp

lemma sample_johnDoe_valid:
  "userSchema_validate sampleEnv johnDoe = Inr (Validated ''John'' ''Doe'' 631152000000)"
  by code_simp

lemma sample_emptyFirstName:
  "userSchema_validate sampleEnv emptyFirstName =
     Inl [label ''firstName'' @ '' is not allowed to be empty'']"
  by code_simp

lemma sample_twoBadNames:
  "allViolations sampleEnv twoBadNames =
     [''First name must contain only letters, spaces, hyphens, and apostrophes'',
      ''Last name must contain only letters, spaces, hyphens, and apostrophes'']"
  by code_simp

lemma sample_dates:
  "utcMidnight 1990 0 1 = 631152000000" "utcMidnight 2010 0 1 = 1262304000000"
  "utcMidnight 2026 0 1 = 1767225600000" "utcMidnight 1800 0 1 = - 5364662400000"
  "utcMidnight 1990 5 15 = 645408000000" "utcMidnight 2024 5 14 = 1718323200000"
  by code_simp+

lemma sample_bornIn1800:
  "userSchema_validate sampleEnv bornIn1800 = Inr (Validated ''John'' ''Doe'' (- 5364662400000))"
  "storeOutcome sampleEnv (Validated ''John'' ''Doe'' (- 5364662400000)) emptyDb =
     (Inl ageCheckViolation, \<lparr>users = [], users_id_seq = 1\<rparr>)"
  by code_simp+

lemma sample_checkViolated:
  "userSchema_validate (sampleEnv\<lparr>queryFault := Some checkViolated\<rparr>) johnDoe =
     Inr (Validated ''John'' ''Doe'' 631152000000)"
  "storeOutcome (sampleEnv\<lparr>queryFault := Some checkViolated\<rparr>)
     (Validated ''John'' ''Doe'' 631152000000) threeUsers = (Inl checkViolated, threeUsers)"
  by code_simp+

lemma sample_reported:
  "reportedFailure ageCheckViolation =
     \<lparr>status = 500, json_body = Failure False ''Database error''\<rparr>"
  "reportedFailure checkViolated = \<lparr>status = 500, json_body = Failure False ''Database error''\<rparr>"
  by code_simp+







section \<open>The determination record\<close>

text \<open>
  C1. Every record created by a successful \<open>checkEligibility\<close> call satisfies the
  invariants at creation: its age is at least 0 and its eligible flag equals
  \<open>18 \<le> age\<close>, where the age is \<open>calculateAge\<close> of the validated date of birth, for
  every request body that passes validation. A call is successful when it answers with
  the determination. The row is appended to the table, and the answer carries its
  identifier, age and flag.
\<close>

theorem created_record_invariants:
  assumes "checkEligibility e b db = (r, db')"
    and "json_body r = Determination i a el msg ts"
  shows "\<exists>fname lname birth row.
           userSchema_validate e b = Inr (Validated fname lname birth) \<and>
           users db' = users db @ [row] \<and>
           i = id' row \<and> a = age row \<and> el = is_eligible row \<and>
           age row = calculateAge (localTZA e) (today e) birth \<and>
           0 \<le> age row \<and> is_eligible row = (18 \<le> age row)"
proof (cases "userSchema_validate e b")
  case (Inl details)
  with assms show ?thesis by (auto simp add: checkEligibility_def)
next
  case (Inr v)
  obtain fname lname birth where v: "v = Validated fname lname birth" by (cases v)
  let ?age = "calculateAge (localTZA e) (today e) birth"
  obtain res db1 where ins:
    "insertUser (queryFault e) (dbNow e) (localTZA e) db (trim fname) (trim lname) birth ?age (18 \<le> ?age) =
       (res, db1)"
    by (cases "insertUser (queryFault e) (dbNow e) (localTZA e) db (trim fname) (trim lname) birth ?age
                 (18 \<le> ?age)")
  show ?thesis
  proof (cases res)
    case (Inl err)
    with assms Inr v ins errorHandler_body[of err] show ?thesis
      by (auto simp add: checkEligibility_def Let_def)
  next
    case (Inr row)
    with ins have "insertUser (queryFault e) (dbNow e) (localTZA e) db (trim fname) (trim lname) birth ?age
        (18 \<le> ?age) = (Inr row, db1)"
      by simp
    from insertUser_Inr[OF this] assms \<open>userSchema_validate e b = Inr v\<close> v ins Inr
    show ?thesis
      by (auto simp add: checkEligibility_def Let_def)
  qed
qed

theorem created_record_invariants_witness:
  "\<exists>fname lname birth row.
     userSchema_validate sampleEnv johnDoe = Inr (Validated fname lname birth) \<and>
     users (snd (checkEligibility sampleEnv johnDoe emptyDb)) = users emptyDb @ [row] \<and>
     (1::int) = id' row \<and> (34::int) = age row \<and> True = is_eligible row \<and>
     age row = calculateAge (localTZA sampleEnv) (today sampleEnv) birth \<and>
     0 \<le> age row \<and> is_eligible row = (18 \<le> age row)"
proof -
  have h1: "checkEligibility sampleEnv johnDoe emptyDb =
      (fst (checkEligibility sampleEnv johnDoe emptyDb),
       snd (checkEligibility sampleEnv johnDoe emptyDb))"
    by simp
  have h2: "json_body (fst (checkEligibility sampleEnv johnDoe emptyDb)) =
      Determination 1 34 True ''You are eligible for the program'' 1718452800002"
    by (simp add: sample_johnDoe)
  from created_record_invariants[OF h1 h2] show ?thesis .
qed

section \<open>The report of the validator\<close>

text \<open>
  Against C2 as stated: the body with the first name \<^verbatim>\<open>John123\<close> and the last name
  \<^verbatim>\<open>Doe456\<close> violates the pattern rule of both names, and the answer lists the message
  of the first name only.
\<close>

theorem only_first_violation_counterexample:
  "checkEligibility sampleEnv twoBadNames emptyDb =
     (\<lparr>status = 400,
       json_body = ValidationFailed ''Validation failed''
         [''First name must contain only letters, spaces, hyphens, and apostrophes'']\<rparr>,
      emptyDb) \<and>
   allViolations sampleEnv twoBadNames =
     [''First name must contain only letters, spaces, hyphens, and apostrophes'',
      ''Last name must contain only letters, spaces, hyphens, and apostrophes'']"
  by code_simp

text \<open>
  C2, amended. For every request body that violates at least one validation rule,
  \<open>checkEligibility\<close> answers with a failure list of exactly one message: the first of
  the enumeration of all violated rules in the order \<^verbatim>\<open>firstName\<close> rules, \<^verbatim>\<open>lastName\<close>
  rules, \<^verbatim>\<open>dateOfBirth\<close> rules (then unknown keys). The validator stops at the first
  violated rule (Joi's default \<^verbatim>\<open>abortEarly\<close>); later violations are not reported.
\<close>

theorem first_violation_reported:
  assumes "allViolations e b \<noteq> []"
  shows "checkEligibility e b db =
           (\<lparr>status = 400,
             json_body = ValidationFailed ''Validation failed'' (take 1 (allViolations e b))\<rparr>,
            db)"
  using validate_Inl[OF assms] by (simp add: checkEligibility_def)

theorem first_violation_reported_witness:
  "checkEligibility sampleEnv twoBadNames threeUsers =
     (\<lparr>status = 400,
       json_body = ValidationFailed ''Validation failed''
         [''First name must contain only letters, spaces, hyphens, and apostrophes'']\<rparr>,
      threeUsers)"
proof -
  have "allViolations sampleEnv twoBadNames \<noteq> []" by (simp add: sample_twoBadNames)
  from first_violation_reported[OF this, of threeUsers] show ?thesis
    by (simp add: sample_twoBadNames)
qed

section \<open>Dates of birth in the future\<close>

text \<open>
  Against C3 as stated: on 2024-01-01 (UTC) \<open>calculateAge\<close> of a birth date of
  2026-01-01 returns -2. The function has no failure.
\<close>

theorem calculateAge_future_counterexample:
  "(1704067200000::int) < 1767225600000 \<and>
   calculateAge (\<lambda>t. 0) 1704067200000 1767225600000 = - 2"
  by code_simp

text \<open>
  C3, amended. For every date of birth that the validator reads as an instant strictly
  after its reference instant, \<open>checkEligibility\<close> fails at validation, before the age
  is computed and before the store is reached: the answer is the validation failure with
  one message, \<^verbatim>\<open>Date of birth cannot be in the future\<close> unless one of the two names is
  rejected first, and the database is unchanged. No age, negative or not, is returned.
  (\<open>calculateAge\<close> itself signals no failure for such a date.)
\<close>

theorem future_birth_rejected_by_validator:
  assumes "coerceDate (isoDate e) (dateOfBirth b) = Some t" and "validatorNow e < t"
  shows "checkEligibility e b db =
           (\<lparr>status = 400,
             json_body = ValidationFailed ''Validation failed''
               (take 1 (validateString defaults ''firstName'' firstNameMessages (firstName b) @
                        validateString defaults ''lastName'' lastNameMessages (lastName b) @
                        [''Date of birth cannot be in the future'']))\<rparr>,
            db)"
proof -
  have d: "fst (validateDate (isoDate e) (validatorNow e) (dateOfBirth b)) =
           [''Date of birth cannot be in the future'']"
    using assms by (cases "dateOfBirth b") (simp_all add: validateDate_def coerceDate_def)
  have a: "allViolations e b =
      validateString \<lparr>abortEarly = False\<rparr> ''firstName'' firstNameMessages (firstName b) @
      validateString \<lparr>abortEarly = False\<rparr> ''lastName'' lastNameMessages (lastName b) @
      [''Date of birth cannot be in the future''] @
      map (\<lambda>k. label k @ '' is not allowed'') (unknownKeys b)"
    by (simp add: allViolations_def d)
  then have "allViolations e b \<noteq> []" by simp
  then have "userSchema_validate e b = Inl (take 1 (allViolations e b))" by (rule validate_Inl)
  moreover have "take 1 (allViolations e b) =
      take 1 (validateString defaults ''firstName'' firstNameMessages (firstName b) @
              validateString defaults ''lastName'' lastNameMessages (lastName b) @
              [''Date of birth cannot be in the future''])"
    unfolding a defaults_def validateString_abort by (rule take1_append3)
  ultimately show ?thesis by (simp add: checkEligibility_def)
qed

theorem future_birth_rejected_by_validator_witness:
  "checkEligibility sampleEnv bornIn2026 threeUsers =
     (\<lparr>status = 400,
       json_body = ValidationFailed ''Validation failed''
         [''Date of birth cannot be in the future'']\<rparr>, threeUsers)"
proof -
  have h1: "coerceDate (isoDate sampleEnv) (dateOfBirth bornIn2026) = Some 1767225600000"
    by code_simp
  have h2: "validatorNow sampleEnv < 1767225600000" by (simp add: sampleEnv_def)
  have n: "validateString defaults ''firstName'' firstNameMessages (firstName bornIn2026) = []"
    "validateString defaults ''lastName'' lastNameMessages (lastName bornIn2026) = []"
    by code_simp+
  from future_birth_rejected_by_validator[OF h1 h2, of threeUsers] show ?thesis
    by (simp add: n)
qed

section \<open>Stored names\<close>

text \<open>
  C4 fails on the code. The first name of one space passes the validator (its length is
  1, and \<^verbatim>\<open>\s\<close> of the pattern matches the space); the handler trims it afterwards and
  the row is stored with the empty first name.
\<close>

theorem blank_name_stored_empty:
  "checkEligibility sampleEnv blankFirstName emptyDb =
     (\<lparr>status = 201,
       json_body = Determination 1 34 True ''You are eligible for the program'' 1718452800002\<rparr>,
      \<lparr>users = [\<lparr>id' = 1, first_name = [], last_name = ''Doe'',
                 date_of_birth = 631152000000, age = 34, is_eligible = True,
                 created_at = 1718452800002\<rparr>],
       users_id_seq = 1\<rparr>)"
  by code_simp

section \<open>Storage failures\<close>

text \<open>
  Against C5 as stated: two calls whose insert fails with two different errors of the
  connection answer with two different bodies, each the message of its error.
\<close>

theorem storage_error_message_counterexample:
  "fst (checkEligibility (sampleEnv\<lparr>queryFault := Some connectionFailed\<rparr>) johnDoe emptyDb) =
     \<lparr>status = 500, json_body = Failure False ''Database connection failed''\<rparr> \<and>
   fst (checkEligibility (sampleEnv\<lparr>queryFault := Some connectionRefused\<rparr>) johnDoe emptyDb) =
     \<lparr>status = 500, json_body = Failure False ''connect ECONNREFUSED 127.0.0.1:5432''\<rparr>"
  by code_simp

text \<open>
  C5, amended. For every storage failure during \<open>checkEligibility\<close> (the query of a
  validated request is rejected, by the connection or by the server, the errors that the
  INSERT itself raises included), the answer is \<open>reportedFailure\<close> of the error and the
  database is as the rejected query left it. For an error of the database server (named
  \<^verbatim>\<open>error\<close>, with a code that is not empty) the status and the message are those listed
  for its code: 409 \<^verbatim>\<open>Duplicate entry\<close> for 23505, 400
  \<^verbatim>\<open>Foreign key constraint violation\<close> for 23503, 400 \<^verbatim>\<open>Required field missing\<close> for
  23502, and 500 \<^verbatim>\<open>Database error\<close> for every other code. They depend on the code alone
  and not on the message of the error: two calls that fail with server errors of the same
  code give the same answer. For any other error the answer carries the error's own
  message (\<^verbatim>\<open>Internal Server Error\<close> when it is empty) and the error's status code (500
  when it has none, or 0).
\<close>

theorem storage_failure_report:
  assumes "userSchema_validate e1 b1 = Inr v1" and "storeOutcome e1 v1 db1 = (Inl err1, db1')"
    and "userSchema_validate e2 b2 = Inr v2" and "storeOutcome e2 v2 db2 = (Inl err2, db2')"
  shows "checkEligibility e1 b1 db1 = (reportedFailure err1, db1') \<and>
         checkEligibility e2 b2 db2 = (reportedFailure err2, db2') \<and>
         (isServerError err1 \<and> isServerError err2 \<and> code err1 = code err2 \<longrightarrow>
            fst (checkEligibility e1 b1 db1) = fst (checkEligibility e2 b2 db2))"
proof -
  have r1: "checkEligibility e1 b1 db1 = (reportedFailure err1, db1')"
    using checkEligibility_failure[OF assms(1,2)] by (simp only: errorHandler_reported)
  have r2: "checkEligibility e2 b2 db2 = (reportedFailure err2, db2')"
    using checkEligibility_failure[OF assms(3,4)] by (simp only: errorHandler_reported)
  have "isServerError err1 \<and> isServerError err2 \<and> code err1 = code err2 \<longrightarrow>
      reportedFailure err1 = reportedFailure err2"
    by (simp add: reportedFailure_def)
  with r1 r2 show ?thesis by simp
qed

theorem storage_failure_report_witness:
  "checkEligibility sampleEnv bornIn1800 emptyDb =
     (\<lparr>status = 500, json_body = Failure False ''Database error''\<rparr>,
      \<lparr>users = [], users_id_seq = 1\<rparr>) \<and>
   checkEligibility (sampleEnv\<lparr>queryFault := Some checkViolated\<rparr>) johnDoe threeUsers =
     (\<lparr>status = 500, json_body = Failure False ''Database error''\<rparr>, threeUsers) \<and>
   fst (checkEligibility sampleEnv bornIn1800 emptyDb) =
   fst (checkEligibility (sampleEnv\<lparr>queryFault := Some checkViolated\<rparr>) johnDoe threeUsers)"
proof -
  have s: "isServerError ageCheckViolation" "isServerError checkViolated"
    "code ageCheckViolation = code checkViolated"
    by (simp_all add: isServerError_def pgError_def checkViolated_def ageCheckViolation_def)
  from storage_failure_report[OF sample_bornIn1800 sample_checkViolated] s
  show ?thesis by (simp add: sample_reported)
qed

section \<open>The age\<close>




section \<open>The statistics\<close>

text \<open>
  Against C7 as stated: for three rows of the ages 20, 20 and 21 the mean is 61/3 and the
  answer has the average 20.33.
\<close>

theorem average_not_exact_counterexample:
  "getStatistics sampleEnv threeUsers =
     \<lparr>status = 200, json_body = Statistics 3 3 0 (2033 / 100)\<rparr> \<and>
   mean (map age (users threeUsers)) = 61 / 3 \<and> (2033 / 100 :: rat) \<noteq> 61 / 3"
  by code_simp

text \<open>
  C7, amended. For every table that is not empty, \<open>getStatistics\<close> answers with the
  average age equal to the arithmetic mean of the ages of all rows rounded to two decimal
  places (\<^verbatim>\<open>ROUND(AVG(age), 2)\<close>); it differs from the exact mean by at most 0.005.
\<close>

theorem average_is_rounded_mean:
  assumes "users db \<noteq> []" and "queryFault e = None"
  shows "getStatistics e db =
           \<lparr>status = 200,
            json_body = Statistics (length (users db)) (length (filter is_eligible (users db)))
              (length (filter (\<lambda>r. \<not> is_eligible r) (users db)))
              (ROUND2 (mean (map age (users db))))\<rparr> \<and>
         \<bar>ROUND2 (mean (map age (users db))) - mean (map age (users db))\<bar> \<le> 1 / 200"
proof
  show "getStatistics e db =
           \<lparr>status = 200,
            json_body = Statistics (length (users db)) (length (filter is_eligible (users db)))
              (length (filter (\<lambda>r. \<not> is_eligible r) (users db)))
              (ROUND2 (mean (map age (users db))))\<rparr>"
    using assms by (simp add: getStatistics_def statsQuery_def AVG_def)
  show "\<bar>ROUND2 (mean (map age (users db))) - mean (map age (users db))\<bar> \<le> 1 / 200"
    by (rule ROUND2_close)
qed

theorem average_is_rounded_mean_witness:
  "getStatistics sampleEnv threeUsers =
     \<lparr>status = 200,
      json_body = Statistics 3 3 0 (ROUND2 (mean (map age (users threeUsers))))\<rparr> \<and>
   ROUND2 (mean (map age (users threeUsers))) = 2033 / 100 \<and>
   \<bar>ROUND2 (mean (map age (users threeUsers))) - mean (map age (users threeUsers))\<bar> \<le> 1 / 200"
proof -
  have h1: "users threeUsers \<noteq> []" by (simp add: threeUsers_def)
  have h2: "queryFault sampleEnv = None" by (simp add: sampleEnv_def)
  have c: "length (users threeUsers) = 3" "length (filter is_eligible (users threeUsers)) = 3"
    "length (filter (\<lambda>r. \<not> is_eligible r) (users threeUsers)) = 0"
    by (simp_all add: threeUsers_def)
  have r: "ROUND2 (mean (map age (users threeUsers))) = 2033 / 100" by code_simp
  from average_is_rounded_mean[OF h1 h2] show ?thesis by (simp add: c r)
qed

text \<open>
  C8. On an empty table the aggregate query returns the counts 0, 0, 0 and no average
  (\<^verbatim>\<open>NULL\<close>), and \<open>getStatistics\<close> answers with total 0, eligible 0, ineligible 0 and
  average age 0: the success answer, with no division and no error.
\<close>

theorem empty_statistics:
  assumes "users db = []" and "queryFault e = None"
  shows "statsQuery (queryFault e) db =
           Inr \<lparr>total_users = 0, eligible_users = 0, ineligible_users = 0,
                average_age = None\<rparr> \<and>
         getStatistics e db = \<lparr>status = 200, json_body = Statistics 0 0 0 0\<rparr>"
  using assms by (simp add: getStatistics_def statsQuery_def AVG_def)

theorem empty_statistics_witness:
  "statsQuery (queryFault sampleEnv) emptyDb =
     Inr \<lparr>total_users = 0, eligible_users = 0, ineligible_users = 0, average_age = None\<rparr> \<and>
   getStatistics sampleEnv emptyDb = \<lparr>status = 200, json_body = Statistics 0 0 0 0\<rparr>"
proof -
  have h1: "users emptyDb = []" by (simp add: emptyDb_def)
  have h2: "queryFault sampleEnv = None" by (simp add: sampleEnv_def)
  from empty_statistics[OF h1 h2] show ?thesis .
qed

section \<open>Validation failures and the store\<close>

text \<open>
  C9. For every request body that fails validation, \<open>checkEligibility\<close> answers with
  the validation failure and leaves the database as it was: no row is appended and the
  sequence of identifiers is not advanced.
\<close>

theorem validation_failure_writes_nothing:
  assumes "userSchema_validate e b = Inl details"
  shows "checkEligibility e b db =
           (\<lparr>status = 400, json_body = ValidationFailed ''Validation failed'' details\<rparr>, db)"
  using assms by (simp add: checkEligibility_def)

theorem validation_failure_writes_nothing_witness:
  "checkEligibility sampleEnv emptyFirstName threeUsers =
     (\<lparr>status = 400,
       json_body = ValidationFailed ''Validation failed''
         [label ''firstName'' @ '' is not allowed to be empty'']\<rparr>, threeUsers)"
  using validation_failure_writes_nothing[OF sample_emptyFirstName] .

section \<open>The message of the answer\<close>

text \<open>
  C10. For every successful \<open>checkEligibility\<close> call the message of the answer is
  \<^verbatim>\<open>You are eligible for the program\<close> when the eligible flag is true and
  \<^verbatim>\<open>You are not eligible for the program\<close> when it is false: a function of the flag
  alone. The status of the answer is 201.
\<close>

theorem message_follows_eligible:
  assumes "checkEligibility e b db = (r, db')"
    and "json_body r = Determination i a el msg ts"
  shows "status r = 201 \<and>
         msg = (if el then ''You are eligible for the program''
                else ''You are not eligible for the program'')"
proof (cases "userSchema_validate e b")
  case (Inl details)
  with assms show ?thesis by (auto simp add: checkEligibility_def)
next
  case (Inr v)
  obtain fname lname birth where v: "v = Validated fname lname birth" by (cases v)
  let ?age = "calculateAge (localTZA e) (today e) birth"
  obtain res db1 where ins:
    "insertUser (queryFault e) (dbNow e) (localTZA e) db (trim fname) (trim lname) birth ?age (18 \<le> ?age) =
       (res, db1)"
    by (cases "insertUser (queryFault e) (dbNow e) (localTZA e) db (trim fname) (trim lname) birth ?age
                 (18 \<le> ?age)")
  show ?thesis
  proof (cases res)
    case (Inl err)
    with assms Inr v ins errorHandler_body[of err] show ?thesis
      by (auto simp add: checkEligibility_def Let_def)
  next
    case (Inr row)
    with assms \<open>userSchema_validate e b = Inr v\<close> v ins show ?thesis
      by (auto simp add: checkEligibility_def Let_def)
  qed
qed

theorem message_follows_eligible_witness:
  "status (fst (checkEligibility sampleEnv johnDoe emptyDb)) = 201 \<and>
   ''You are eligible for the program'' =
     (if True then ''You are eligible for the program''
      else ''You are not eligible for the program'')"
proof -
  have h1: "checkEligibility sampleEnv johnDoe emptyDb =
      (fst (checkEligibility sampleEnv johnDoe emptyDb),
       snd (checkEligibility sampleEnv johnDoe emptyDb))"
    by simp
  have h2: "json_body (fst (checkEligibility sampleEnv johnDoe emptyDb)) =
      Determination 1 34 True ''You are eligible for the program'' 1718452800002"
    by (simp add: sample_johnDoe)
  from message_follows_eligible[OF h1 h2] show ?thesis .
qed

section \<open>Further properties of the pipeline\<close>

text \<open>
  The validator alone already keeps the age from being negative: the date of birth it
  accepts is not after its clock, \<^verbatim>\<open>calculateAge\<close> reads the clock afterwards, and the
  calendar fields are monotone in the day. The two conditions are that the clock does
  not go back between the two reads and that the local calendar day does not go back
  as time advances (as in UTC and in every zone of a fixed offset).
\<close>

lemma validated_age_nonneg:
  assumes "userSchema_validate e b = Inr (Validated fname lname birth)"
    and "validatorNow e \<le> today e"
    and "\<forall>s t. s \<le> t \<longrightarrow> Day (LocalTime (localTZA e) s) \<le> Day (LocalTime (localTZA e) t)"
  shows "0 \<le> calculateAge (localTZA e) (today e) birth"
proof -
  have "birth \<le> validatorNow e"
    using validate_Inr[of e defaults b fname lname birth] assms(1)
    by (simp add: userSchema_validate_def)
  with assms(2) have "birth \<le> today e" by simp
  with assms(3) have "Day (LocalTime (localTZA e) birth) \<le> Day (LocalTime (localTZA e) (today e))"
    by blast
  then show ?thesis by (rule calculateAge_nonneg)
qed

lemma Day_mono: "s \<le> t \<Longrightarrow> Day s \<le> Day t"
  by (simp add: Day_def msPerDay_def zdiv_mono1)

lemma validated_age_nonneg_example:
  "0 \<le> calculateAge (localTZA sampleEnv) (today sampleEnv) 631152000000"
proof -
  have h2: "validatorNow sampleEnv \<le> today sampleEnv" by (simp add: sampleEnv_def)
  have h3: "\<forall>s t. s \<le> t \<longrightarrow>
      Day (LocalTime (localTZA sampleEnv) s) \<le> Day (LocalTime (localTZA sampleEnv) t)"
    by (simp add: sampleEnv_def LocalTime_def Day_mono)
  from validated_age_nonneg[OF sample_johnDoe_valid h2 h3] show ?thesis .
qed

text \<open>The age never decreases as the reference instant advances.\<close>

lemma calculateAge_monotone:
  assumes "Day (LocalTime tza asOf1) \<le> Day (LocalTime tza asOf2)"
  shows "calculateAge tza asOf1 birthDate \<le> calculateAge tza asOf2 birthDate"
  using fields_mono[OF assms]
  by (auto simp add: calculateAge_def Let_def getFullYear_def getMonth_def getDate_def)

lemma calculateAge_monotone_example:
  "calculateAge (\<lambda>t. 0) 1704067200000 648432000000 \<le>
   calculateAge (\<lambda>t. 0) 1718452800000 648432000000"
proof -
  have "Day (LocalTime (\<lambda>t. 0) 1704067200000) \<le> Day (LocalTime (\<lambda>t. 0) 1718452800000)"
    by (simp add: LocalTime_def Day_mono)
  from calculateAge_monotone[OF this] show ?thesis .
qed

text \<open>The eligible and the ineligible count add up to the total count.\<close>

lemma statistics_counts_add_up:
  assumes "queryFault e = None"
  shows "\<exists>total eligible ineligible average.
           getStatistics e db =
             \<lparr>status = 200, json_body = Statistics total eligible ineligible average\<rparr> \<and>
           total = length (users db) \<and> eligible + ineligible = total"
  using assms sum_length_filter_compl[of is_eligible "users db"]
  by (simp add: getStatistics_def statsQuery_def)

lemma statistics_counts_add_up_example:
  "\<exists>total eligible ineligible average.
     getStatistics sampleEnv threeUsers =
       \<lparr>status = 200, json_body = Statistics total eligible ineligible average\<rparr> \<and>
     total = length (users threeUsers) \<and> eligible + ineligible = total"
proof -
  have "queryFault sampleEnv = None" by (simp add: sampleEnv_def)
  from statistics_counts_add_up[OF this] show ?thesis .
qed

text \<open>
  What does hold of the stored names: they are trimmed, have at most 50 characters and
  only characters of the class of the pattern. (They may be empty, see above.)
\<close>

lemma dropEnd_snoc:
  "rev (dropWhile P (rev (xs @ [x]))) = (if P x then rev (dropWhile P (rev xs)) else xs @ [x])"
  by simp

lemma dropWhile_dropEnd:
  "xs = [] \<or> \<not> P (hd xs) \<Longrightarrow>
   dropWhile P (rev (dropWhile P (rev xs))) = rev (dropWhile P (rev xs))"
proof (induction xs rule: rev_induct)
  case Nil
  show ?case by simp
next
  case (snoc x xs)
  show ?case
  proof (cases "P x")
    case True
    with snoc.prems have "xs \<noteq> []" by auto
    with snoc.prems have "\<not> P (hd xs)" by simp
    with snoc.IH True show ?thesis by simp
  next
    case False
    have "\<not> P (hd (xs @ [x]))" using snoc.prems by simp
    then have "dropWhile P (xs @ [x]) = xs @ [x]" by (cases "xs @ [x]") simp_all
    with False show ?thesis by simp
  qed
qed

lemma trim_idem: "trim (trim s) = trim s"
proof -
  let ?u = "dropWhile isWhiteSpace s"
  have "?u = [] \<or> \<not> isWhiteSpace (hd ?u)"
  proof (cases "?u = []")
    case True
    then show ?thesis by (rule disjI1)
  next
    case False
    then have "\<not> isWhiteSpace (hd ?u)" by (rule hd_dropWhile)
    then show ?thesis by (rule disjI2)
  qed
  then have "dropWhile isWhiteSpace (trim s) = trim s"
    unfolding trim_def by (rule dropWhile_dropEnd)
  then show ?thesis by (simp add: trim_def)
qed

lemma trim_length: "length (trim s) \<le> length s"
proof -
  have "length (trim s) \<le> length (dropWhile isWhiteSpace s)"
    using length_dropWhile_le[of isWhiteSpace "rev (dropWhile isWhiteSpace s)"]
    by (simp add: trim_def)
  also have "\<dots> \<le> length s" by (rule length_dropWhile_le)
  finally show ?thesis .
qed

lemma trim_set: "set (trim s) \<subseteq> set s"
proof -
  have "set (trim s) \<subseteq> set (dropWhile isWhiteSpace s)"
    using set_dropWhileD[of _ isWhiteSpace "rev (dropWhile isWhiteSpace s)"]
    by (auto simp add: trim_def)
  also have "\<dots> \<subseteq> set s" using set_dropWhileD[of _ isWhiteSpace s] by auto
  finally show ?thesis .
qed

lemma validateString_accepts:
  assumes "validateString defaults key m (JStr s) = []"
  shows "1 \<le> length s \<and> length s \<le> 50 \<and> namePattern s"
proof -
  have "s \<noteq> []" using assms by (auto simp add: validateString_def)
  with assms have "take 1 (ruleErrors m s) = []"
    by (simp add: validateString_def defaults_def)
  then have "ruleErrors m s = []" by (cases "ruleErrors m s") simp_all
  then have "\<not> 50 < length s \<and> namePattern s" by (simp add: ruleErrors_def split: if_splits)
  moreover have "1 \<le> length s" using \<open>s \<noteq> []\<close> by (cases s) simp_all
  ultimately show ?thesis by simp
qed

lemma stored_names_normalized:
  assumes "checkEligibility e b db = (r, db')"
    and "json_body r = Determination i a el msg ts"
  shows "\<exists>row. users db' = users db @ [row] \<and>
           trim (first_name row) = first_name row \<and> trim (last_name row) = last_name row \<and>
           length (first_name row) \<le> 50 \<and> length (last_name row) \<le> 50 \<and>
           list_all nameChar (first_name row) \<and> list_all nameChar (last_name row)"
proof (cases "userSchema_validate e b")
  case (Inl details)
  with assms show ?thesis by (auto simp add: checkEligibility_def)
next
  case (Inr v)
  obtain fname lname birth where v: "v = Validated fname lname birth" by (cases v)
  have ok: "validate e defaults b = Inr (Validated fname lname birth)"
    using Inr v by (simp add: userSchema_validate_def)
  note vi = validate_Inr[OF ok]
  have "firstName b = JStr fname"
    and "validateString defaults ''firstName'' firstNameMessages (firstName b) = []"
    using vi by blast+
  then have f: "validateString defaults ''firstName'' firstNameMessages (JStr fname) = []"
    by simp
  have "lastName b = JStr lname"
    and "validateString defaults ''lastName'' lastNameMessages (lastName b) = []"
    using vi by blast+
  then have l: "validateString defaults ''lastName'' lastNameMessages (JStr lname) = []"
    by simp
  have nf: "length (trim fname) \<le> 50 \<and> list_all nameChar (trim fname)"
    using validateString_accepts[OF f] trim_length[of fname] trim_set[of fname]
    by (auto simp add: namePattern_def list_all_iff)
  have nl: "length (trim lname) \<le> 50 \<and> list_all nameChar (trim lname)"
    using validateString_accepts[OF l] trim_length[of lname] trim_set[of lname]
    by (auto simp add: namePattern_def list_all_iff)
  let ?age = "calculateAge (localTZA e) (today e) birth"
  obtain res db1 where ins:
    "insertUser (queryFault e) (dbNow e) (localTZA e) db (trim fname) (trim lname) birth ?age (18 \<le> ?age) =
       (res, db1)"
    by (cases "insertUser (queryFault e) (dbNow e) (localTZA e) db (trim fname) (trim lname) birth ?age
                 (18 \<le> ?age)")
  show ?thesis
  proof (cases res)
    case (Inl err)
    with assms \<open>userSchema_validate e b = Inr v\<close> v ins errorHandler_body[of err] show ?thesis
      by (auto simp add: checkEligibility_def Let_def)
  next
    case (Inr row)
    with ins have "insertUser (queryFault e) (dbNow e) (localTZA e) db (trim fname) (trim lname) birth ?age
        (18 \<le> ?age) = (Inr row, db1)"
      by simp
    from insertUser_Inr[OF this] assms \<open>userSchema_validate e b = Inr v\<close> v ins Inr nf nl
    show ?thesis
      by (auto simp add: checkEligibility_def Let_def trim_idem)
  qed
qed

lemma stored_names_normalized_example:
  "\<exists>row. users (snd (checkEligibility sampleEnv johnDoe emptyDb)) = users emptyDb @ [row] \<and>
     trim (first_name row) = first_name row \<and> trim (last_name row) = last_name row \<and>
     length (first_name row) \<le> 50 \<and> length (last_name row) \<le> 50 \<and>
     list_all nameChar (first_name row) \<and> list_all nameChar (last_name row)"
proof -
  have h1: "checkEligibility sampleEnv johnDoe emptyDb =
      (fst (checkEligibility sampleEnv johnDoe emptyDb),
       snd (checkEligibility sampleEnv johnDoe emptyDb))"
    by simp
  have h2: "json_body (fst (checkEligibility sampleEnv johnDoe emptyDb)) =
      Determination 1 34 True ''You are eligible for the program'' 1718452800002"
    by (simp add: sample_johnDoe)
  from stored_names_normalized[OF h1 h2] show ?thesis .
qed

end
